theory Spec2Isabelle
  imports Main "HOL-Library.Word" "HOL-Library.AList"
begin

section \<open>Data model\<close>

text \<open>
  The broker's backend (\<^verbatim>\<open>backend.go\<close>) works on pointers: a \<^verbatim>\<open>Client\<close> is an
  interface value, a \<^verbatim>\<open>*MemorySession\<close> is shared between the session registry, the
  client's context and the offline queue. Both are modelled by their identity: a client
  by a number, a session pointer by an address into an explicit store.
\<close>

type_synonym client = nat
type_synonym addr = nat

text \<open>\<^verbatim>\<open>packet.Message\<close>: topic, payload bytes, QOS byte and retain flag.\<close>

record Message =
  Topic :: string
  Payload :: "8 word list"
  QOS :: "8 word"
  Retain :: bool

text \<open>\<^verbatim>\<open>packet.Subscription\<close>: a topic filter and the granted QOS byte.\<close>

record Subscription =
  SubTopic :: string
  SubQOS :: "8 word"

text \<open>A Go \<^verbatim>\<open>error\<close> value; \<^verbatim>\<open>nil\<close> is \<open>None\<close> of \<open>error option\<close>.\<close>

datatype error = Error string

text \<open>
  The trees and the context store \<^verbatim>\<open>interface{}\<close> values, which the backend reads
  back with a type assertion. The dynamic type is the constructor.
\<close>

datatype val = VClient client | VSession addr | VMessage Message

datatype ctxval = CBool bool | CSession addr | CString string

text \<open>\<^verbatim>\<open>Context\<close> of \<^verbatim>\<open>helpers.go\<close>: \<^verbatim>\<open>store map[string]interface{}\<close>.\<close>

type_synonym Context = "string \<rightharpoonup> ctxval"

text \<open>
  What the backend does to a client is a call of the \<^verbatim>\<open>Client\<close> interface:
  \<^verbatim>\<open>Publish(msg)\<close> or \<^verbatim>\<open>Close(clean)\<close>. The calls are recorded in order.
\<close>

datatype call = Call_Publish client Message | Call_Close client bool

section \<open>Topic tree\<close>

text \<open>
  Modelled from the spec: \<^verbatim>\<open>tools.Tree\<close> (package \<^verbatim>\<open>github.com/gomqtt/tools\<close>) is not
  among the sources. The spec describes it as a "wildcard-capable indexed map: topic
  filter \<rightarrow> opaque value set; supports exact set add/remove, wildcard match lookup,
  per-value clear". A node of the tree is identified by the filter that leads to it, so
  the tree is the association of each stored filter with the values at its node, in
  insertion order. A filter with no entry has no values.
\<close>

type_synonym 'v tree = "(string \<times> 'v list) list"

definition NewTree :: "'v tree" where
  "NewTree = []"

definition tree_get :: "'v tree \<Rightarrow> string \<Rightarrow> 'v list" where
  "tree_get t f = (case map_of t f of None \<Rightarrow> [] | Some vs \<Rightarrow> vs)"

definition tree_keys :: "'v tree \<Rightarrow> string list" where
  "tree_keys t = remdups (map fst t)"

text \<open>\<^verbatim>\<open>Add(filter, v)\<close>: "inserts v at the terminal node"; "re-adding is idempotent".\<close>

definition tree_Add :: "'v tree \<Rightarrow> string \<Rightarrow> 'v \<Rightarrow> 'v tree" where
  "tree_Add t f v =
     (let vs = tree_get t f
      in AList.update f (if v \<in> set vs then vs else vs @ [v]) t)"

text \<open>\<^verbatim>\<open>Remove(filter, v)\<close>: exact removal of v at that filter.\<close>

definition tree_Remove :: "'v tree \<Rightarrow> string \<Rightarrow> 'v \<Rightarrow> 'v tree" where
  "tree_Remove t f v =
     (case map_of t f of
        None \<Rightarrow> t
      | Some vs \<Rightarrow> AList.update f (removeAll v vs) t)"

text \<open>\<^verbatim>\<open>Clear(v)\<close>: "remove v from every node".\<close>

definition tree_Clear :: "'v tree \<Rightarrow> 'v \<Rightarrow> 'v tree" where
  "tree_Clear t v = map (\<lambda>(f, vs). (f, removeAll v vs)) t"

text \<open>\<^verbatim>\<open>Set(topic, v)\<close>: "single-value slot for retained".\<close>

definition tree_Set :: "'v tree \<Rightarrow> string \<Rightarrow> 'v \<Rightarrow> 'v tree" where
  "tree_Set t f v = AList.update f [v] t"

text \<open>\<^verbatim>\<open>Empty(topic)\<close>: the slot of the topic holds nothing afterwards.\<close>

definition tree_Empty :: "'v tree \<Rightarrow> string \<Rightarrow> 'v tree" where
  "tree_Empty t f = AList.update f [] t"

text \<open>Levels of a topic or filter: the pieces between the separators \<^verbatim>\<open>/\<close>.\<close>

fun split_levels :: "string \<Rightarrow> string list" where
  "split_levels [] = [[]]"
| "split_levels (c # cs) =
     (if c = CHR ''/'' then [] # split_levels cs
      else (case split_levels cs of
              [] \<Rightarrow> [[c]]
            | l # ls \<Rightarrow> (c # l) # ls))"

text \<open>
  "\<^verbatim>\<open>+\<close> matches one level; \<^verbatim>\<open>#\<close> matches zero or more trailing levels (must be
  final)". The first argument carries the wildcards.
\<close>

fun levels_match :: "string list \<Rightarrow> string list \<Rightarrow> bool" where
  "levels_match [] [] = True"
| "levels_match [] (t # ts) = False"
| "levels_match (f # fs) ts =
     (if f = ''#'' then fs = []
      else (case ts of
              [] \<Rightarrow> False
            | t # ts' \<Rightarrow> (f = ''+'' \<or> f = t) \<and> levels_match fs ts'))"

definition topic_matches :: "string \<Rightarrow> string \<Rightarrow> bool" where
  "topic_matches flt topic = levels_match (split_levels flt) (split_levels topic)"

text \<open>
  \<^verbatim>\<open>Match(topic)\<close> "expands wildcards in stored filters when resolving a concrete
  topic"; \<^verbatim>\<open>Search(filter)\<close> "expands wildcards in the query against concrete stored
  topics".
\<close>

definition tree_Match :: "'v tree \<Rightarrow> string \<Rightarrow> 'v list" where
  "tree_Match t topic =
     concat (map (tree_get t) (filter (\<lambda>f. topic_matches f topic) (tree_keys t)))"

definition tree_Search :: "'v tree \<Rightarrow> string \<Rightarrow> 'v list" where
  "tree_Search t flt =
     concat (map (tree_get t) (filter (\<lambda>k. topic_matches flt k) (tree_keys t)))"

section \<open>Session\<close>

text \<open>
  Modelled from the spec: \<^verbatim>\<open>MemorySession\<close> and its methods (\<^verbatim>\<open>session.go\<close>) are not
  among the sources; \<^verbatim>\<open>backend.go\<close> reads and writes the field \<^verbatim>\<open>currentClient\<close>
  directly and calls \<^verbatim>\<open>NewMemorySession\<close>, \<^verbatim>\<open>Reset\<close>, \<^verbatim>\<open>AllSubscriptions\<close>,
  \<^verbatim>\<open>queue\<close> and \<^verbatim>\<open>missed\<close>. The spec's session holds \<open>subscriptions\<close> (filter to
  granted QoS), \<open>outgoing\<close> (in-flight packets by packet id), \<open>incoming\<close> (QoS 2
  packet ids not yet released), \<open>missed\<close> (FIFO of messages captured while offline) and
  \<open>currentClient\<close> (the client that owns the session, or none). The packet-id counter
  is left out: no operation of the backend reads it.
\<close>

record MemorySession =
  subscriptions :: "Subscription list"
  outgoing :: "(16 word \<times> Message) list"
  incoming :: "16 word list"
  missed :: "Message list"
  currentClient :: "client option"

definition NewMemorySession :: MemorySession where
  "NewMemorySession =
     \<lparr>subscriptions = [], outgoing = [], incoming = [], missed = [], currentClient = None\<rparr>"

text \<open>
  \<^verbatim>\<open>Reset()\<close>: "clears all fields; used on CleanSession reconnection". It clears what
  the session stores; \<open>currentClient\<close> is the backend's back-reference, which
  \<^verbatim>\<open>Setup\<close> assigns just before it resets and \<^verbatim>\<open>Terminate\<close> clears itself.
\<close>

definition session_Reset :: "MemorySession \<Rightarrow> MemorySession" where
  "session_Reset s = s\<lparr>subscriptions := [], outgoing := [], incoming := [], missed := []\<rparr>"

text \<open>\<^verbatim>\<open>SaveSubscription(sub)\<close>: one granted QoS per filter.\<close>

definition SaveSubscription :: "MemorySession \<Rightarrow> Subscription \<Rightarrow> MemorySession" where
  "SaveSubscription s sub =
     s\<lparr>subscriptions := filter (\<lambda>x. SubTopic x \<noteq> SubTopic sub) (subscriptions s) @ [sub]\<rparr>"

definition DeleteSubscription :: "MemorySession \<Rightarrow> string \<Rightarrow> MemorySession" where
  "DeleteSubscription s f =
     s\<lparr>subscriptions := filter (\<lambda>x. SubTopic x \<noteq> f) (subscriptions s)\<rparr>"

text \<open>\<^verbatim>\<open>AllSubscriptions()\<close> has an error result, which the memory session never uses.\<close>

definition AllSubscriptions :: "MemorySession \<Rightarrow> error + Subscription list" where
  "AllSubscriptions s = Inr (subscriptions s)"

text \<open>"\<^verbatim>\<open>queue(msg)\<close>: appends to \<open>missed\<close>; \<^verbatim>\<open>missed()\<close> drains and returns them."\<close>

definition session_queue :: "MemorySession \<Rightarrow> Message \<Rightarrow> MemorySession" where
  "session_queue s msg = s\<lparr>missed := missed s @ [msg]\<rparr>"

definition session_missed :: "MemorySession \<Rightarrow> Message list \<times> MemorySession" where
  "session_missed s = (missed s, s\<lparr>missed := []\<rparr>)"

section \<open>Backend\<close>

text \<open>
  The state: the fields of \<^verbatim>\<open>MemoryBackend\<close> (\<open>Logins\<close>, which may be a nil map,
  \<open>queue\<close>, \<open>retained\<close>, \<open>offlineQueue\<close>, \<open>sessions\<close>) and what the backend reaches
  through pointers: the store of sessions with its allocation counter, the context of
  every client, the calls made on clients so far, and the goroutines \<^verbatim>\<open>Setup\<close> has
  started and that have not run yet (the client to replay to and the session).
\<close>

record state =
  Logins :: "(string \<rightharpoonup> string) option"
  queue :: "val tree"
  retained :: "val tree"
  offlineQueue :: "val tree"
  sessions :: "string \<rightharpoonup> addr"
  heap :: "addr \<Rightarrow> MemorySession"
  next_addr :: addr
  contexts :: "client \<Rightarrow> Context"
  calls :: "call list"
  spawned :: "(client \<times> addr) list"

definition NewMemoryBackend :: state where
  "NewMemoryBackend =
     \<lparr>Logins = None, queue = NewTree, retained = NewTree, offlineQueue = NewTree,
      sessions = Map.empty, heap = (\<lambda>_. NewMemorySession), next_addr = 0,
      contexts = (\<lambda>_. Map.empty), calls = [], spawned = []\<rparr>"

text \<open>\<^verbatim>\<open>Context.Set\<close> and \<^verbatim>\<open>Context.Get\<close> on the context of a client.\<close>

definition Context_Set :: "state \<Rightarrow> client \<Rightarrow> string \<Rightarrow> ctxval \<Rightarrow> state" where
  "Context_Set st c key v = st\<lparr>contexts := (contexts st)(c := (contexts st c)(key \<mapsto> v))\<rparr>"

definition Context_Get :: "state \<Rightarrow> client \<Rightarrow> string \<Rightarrow> ctxval option" where
  "Context_Get st c key = contexts st c key"

definition client_Publish :: "state \<Rightarrow> client \<Rightarrow> Message \<Rightarrow> state" where
  "client_Publish st c msg = st\<lparr>calls := calls st @ [Call_Publish c msg]\<rparr>"

definition client_Close :: "state \<Rightarrow> client \<Rightarrow> bool \<Rightarrow> state" where
  "client_Close st c clean = st\<lparr>calls := calls st @ [Call_Close c clean]\<rparr>"

text \<open>\<^verbatim>\<open>NewMemorySession()\<close> as an allocation: a fresh address holding the new session.\<close>

definition alloc_session :: "state \<Rightarrow> state \<times> addr" where
  "alloc_session st =
     (st\<lparr>heap := (heap st)(next_addr st := NewMemorySession), next_addr := Suc (next_addr st)\<rparr>,
      next_addr st)"

definition set_currentClient :: "state \<Rightarrow> addr \<Rightarrow> client option \<Rightarrow> state" where
  "set_currentClient st a c = st\<lparr>heap := (heap st)(a := (heap st a)\<lparr>currentClient := c\<rparr>)\<rparr>"

text \<open>\<^verbatim>\<open>Authenticate\<close> (lines 102-114).\<close>

definition Authenticate :: "state \<Rightarrow> client \<Rightarrow> string \<Rightarrow> string \<Rightarrow> bool \<times> error option" where
  "Authenticate st client user password =
     (case Logins st of
        None \<Rightarrow> (True, None)
      | Some logins \<Rightarrow>
          (case logins user of
             Some pw \<Rightarrow> if pw = password then (True, None) else (False, None)
           | None \<Rightarrow> (False, None)))"

text \<open>
  \<^verbatim>\<open>Setup\<close> (lines 123-180). The result is the new state, the session pointer, the
  resumed flag and the error; \<open>cid\<close> is the parameter \<^verbatim>\<open>id\<close>.
\<close>

definition Setup :: "state \<Rightarrow> client \<Rightarrow> string \<Rightarrow> bool \<Rightarrow> state \<times> addr \<times> bool \<times> error option" where
  "Setup st client cid clean =
     (let st1 = Context_Set st client ''clean'' (CBool clean) in
      if length cid = 0 then
        (let (st2, sess) = alloc_session st1;
             st3 = Context_Set st2 client ''session'' (CSession sess)
         in (st3, sess, False, None))
      else
        (case sessions st1 cid of
           Some sess \<Rightarrow>
             (let st2 = (case currentClient (heap st1 sess) of
                           Some old \<Rightarrow> client_Close st1 old True
                         | None \<Rightarrow> st1);
                  st3 = set_currentClient st2 sess (Some client);
                  st4 = (if clean
                         then st3\<lparr>heap := (heap st3)(sess := session_Reset (heap st3 sess))\<rparr>
                         else st3);
                  st5 = st4\<lparr>offlineQueue := tree_Clear (offlineQueue st4) (VSession sess)\<rparr>;
                  st6 = st5\<lparr>spawned := spawned st5 @ [(client, sess)]\<rparr>;
                  st7 = Context_Set st6 client ''session'' (CSession sess)
              in (st7, sess, True, None))
         | None \<Rightarrow>
             (let (st2, sess) = alloc_session st1;
                  st3 = set_currentClient st2 sess (Some client);
                  st4 = st3\<lparr>sessions := (sessions st3)(cid \<mapsto> sess)\<rparr>;
                  st5 = Context_Set st4 client ''session'' (CSession sess)
              in (st5, sess, False, None))))"

text \<open>
  The goroutine of lines 159-163, run at some later moment: it drains the missed
  messages of the session and publishes each to the client.
\<close>

definition replay :: "state \<Rightarrow> client \<Rightarrow> addr \<Rightarrow> state" where
  "replay st client sess =
     (let (msgs, s') = session_missed (heap st sess);
          st1 = st\<lparr>heap := (heap st)(sess := s')\<rparr>
      in fold (\<lambda>msg s. client_Publish s client msg) msgs st1)"

text \<open>\<^verbatim>\<open>Subscribe\<close> (lines 186-202).\<close>

definition Subscribe :: "state \<Rightarrow> client \<Rightarrow> string \<Rightarrow> state \<times> Message list \<times> error option" where
  "Subscribe st client topic =
     (let st1 = st\<lparr>queue := tree_Add (queue st) topic (VClient client)\<rparr>;
          values = tree_Search (retained st1) topic;
          msgs = concat (map (\<lambda>v. case v of VMessage msg \<Rightarrow> [msg] | _ \<Rightarrow> []) values)
      in (st1, msgs, None))"

text \<open>\<^verbatim>\<open>Unsubscribe\<close> (lines 205-210).\<close>

definition Unsubscribe :: "state \<Rightarrow> client \<Rightarrow> string \<Rightarrow> state \<times> error option" where
  "Unsubscribe st client topic =
     (st\<lparr>queue := tree_Remove (queue st) topic (VClient client)\<rparr>, None)"

text \<open>\<^verbatim>\<open>Publish\<close> (lines 217-242): the retained store, then the two iterations.\<close>

definition publish_retain :: "state \<Rightarrow> Message \<Rightarrow> state" where
  "publish_retain st msg =
     (if Retain msg then
        (if length (Payload msg) > 0
         then st\<lparr>retained := tree_Set (retained st) (Topic msg) (VMessage msg)\<rparr>
         else st\<lparr>retained := tree_Empty (retained st) (Topic msg)\<rparr>)
      else st)"

definition publish_online :: "Message \<Rightarrow> val \<Rightarrow> state \<Rightarrow> state" where
  "publish_online msg v st = (case v of VClient c \<Rightarrow> client_Publish st c msg | _ \<Rightarrow> st)"

definition publish_offline :: "Message \<Rightarrow> val \<Rightarrow> state \<Rightarrow> state" where
  "publish_offline msg v st =
     (case v of
        VSession a \<Rightarrow> st\<lparr>heap := (heap st)(a := session_queue (heap st a) msg)\<rparr>
      | _ \<Rightarrow> st)"

definition Publish :: "state \<Rightarrow> client \<Rightarrow> Message \<Rightarrow> state \<times> error option" where
  "Publish st client msg =
     (let st1 = publish_retain st msg;
          st2 = fold (publish_online msg) (tree_Match (queue st1) (Topic msg)) st1;
          st3 = fold (publish_offline msg) (tree_Match (offlineQueue st2) (Topic msg)) st2
      in (st3, None))"

text \<open>\<^verbatim>\<open>Terminate\<close> (lines 248-285).\<close>

definition register_offline :: "addr \<Rightarrow> Subscription \<Rightarrow> state \<Rightarrow> state" where
  "register_offline session sub st =
     (if SubQOS sub \<ge> 1
      then st\<lparr>offlineQueue := tree_Add (offlineQueue st) (SubTopic sub) (VSession session)\<rparr>
      else st)"

definition Terminate :: "state \<Rightarrow> client \<Rightarrow> state \<times> error option" where
  "Terminate st client =
     (let st1 = st\<lparr>queue := tree_Clear (queue st) (VClient client)\<rparr> in
      case Context_Get st1 client ''session'' of
        Some (CSession session) \<Rightarrow>
          (let st2 = set_currentClient st1 session None in
           case Context_Get st2 client ''clean'' of
             Some (CBool True) \<Rightarrow>
               (st2\<lparr>heap := (heap st2)(session := session_Reset (heap st2 session))\<rparr>, None)
           | _ \<Rightarrow>
               (case AllSubscriptions (heap st2 session) of
                  Inl err \<Rightarrow> (st2, Some err)
                | Inr subs \<Rightarrow> (fold (register_offline session) subs st2, None)))
      | _ \<Rightarrow> (st1, None))"

text \<open>The filters of the subscriptions with QoS at least 1, in the order of the list.\<close>

fun offline_filters :: "Subscription list \<Rightarrow> string list" where
  "offline_filters [] = []"
| "offline_filters (sub # subs) =
     (if 1 \<le> SubQOS sub then SubTopic sub # offline_filters subs else offline_filters subs)"

section \<open>Runs of the backend\<close>

text \<open>
  The session methods \<^verbatim>\<open>SaveSubscription\<close> and \<^verbatim>\<open>DeleteSubscription\<close> are called by
  the client that owns the session (on SUBSCRIBE and UNSUBSCRIBE), on the session bound
  in its context. They are the only way a session comes to hold a subscription.
\<close>

definition on_session :: "state \<Rightarrow> client \<Rightarrow> (MemorySession \<Rightarrow> MemorySession) \<Rightarrow> state" where
  "on_session st c f =
     (case Context_Get st c ''session'' of
        Some (CSession a) \<Rightarrow> st\<lparr>heap := (heap st)(a := f (heap st a))\<rparr>
      | _ \<Rightarrow> st)"

text \<open>The scheduler runs the \<open>n\<close>-th goroutine that is still waiting.\<close>

definition run_spawned :: "state \<Rightarrow> nat \<Rightarrow> state" where
  "run_spawned st n =
     (if n < length (spawned st)
      then (case spawned st ! n of
              (c, a) \<Rightarrow>
                replay (st\<lparr>spawned := take n (spawned st) @ drop (Suc n) (spawned st)\<rparr>) c a)
      else st)"

datatype op =
    Op_Setup client string bool
  | Op_Subscribe client string
  | Op_Unsubscribe client string
  | Op_Publish client Message
  | Op_Terminate client
  | Op_SaveSubscription client Subscription
  | Op_DeleteSubscription client string
  | Op_Replay nat

fun apply_op :: "state \<Rightarrow> op \<Rightarrow> state" where
  "apply_op st (Op_Setup c cid clean) = fst (Setup st c cid clean)"
| "apply_op st (Op_Subscribe c topic) = fst (Subscribe st c topic)"
| "apply_op st (Op_Unsubscribe c topic) = fst (Unsubscribe st c topic)"
| "apply_op st (Op_Publish c msg) = fst (Publish st c msg)"
| "apply_op st (Op_Terminate c) = fst (Terminate st c)"
| "apply_op st (Op_SaveSubscription c sub) = on_session st c (\<lambda>s. SaveSubscription s sub)"
| "apply_op st (Op_DeleteSubscription c f) = on_session st c (\<lambda>s. DeleteSubscription s f)"
| "apply_op st (Op_Replay n) = run_spawned st n"

fun run :: "state \<Rightarrow> op list \<Rightarrow> state" where
  "run st [] = st"
| "run st (x # xs) = run (apply_op st x) xs"

section \<open>Notions the properties are stated with\<close>

text \<open>All values stored anywhere in a tree.\<close>

definition tree_values :: "'v tree \<Rightarrow> 'v list" where
  "tree_values t = concat (map (tree_get t) (tree_keys t))"

text \<open>A session is in the offline queue; it is registered there under a filter.\<close>

definition offline_member :: "state \<Rightarrow> addr \<Rightarrow> bool" where
  "offline_member st a = (VSession a \<in> set (tree_values (offlineQueue st)))"

definition registered_under :: "state \<Rightarrow> string \<Rightarrow> addr \<Rightarrow> bool" where
  "registered_under st f a = (VSession a \<in> set (tree_get (offlineQueue st) f))"

text \<open>The session holds a subscription to the filter with QoS at least 1.\<close>

definition holds_offline_sub :: "MemorySession \<Rightarrow> string \<Rightarrow> bool" where
  "holds_offline_sub s f = list_ex (\<lambda>sub. SubTopic sub = f \<and> 1 \<le> SubQOS sub) (subscriptions s)"

definition holds_any_offline_sub :: "MemorySession \<Rightarrow> bool" where
  "holds_any_offline_sub s = list_ex (\<lambda>sub. 1 \<le> SubQOS sub) (subscriptions s)"

text \<open>The client is bound to the session and connected with the given clean flag.\<close>

definition bound_client :: "state \<Rightarrow> client \<Rightarrow> addr \<Rightarrow> bool \<Rightarrow> bool" where
  "bound_client st c a clean =
     (Context_Get st c ''session'' = Some (CSession a)
      \<and> Context_Get st c ''clean'' = Some (CBool clean))"

text \<open>The messages of the retained publishes on a topic, in the order of the calls.\<close>

fun retained_publishes :: "string \<Rightarrow> op list \<Rightarrow> Message list" where
  "retained_publishes T [] = []"
| "retained_publishes T (Op_Publish c msg # xs) =
     (if Retain msg \<and> Topic msg = T then msg # retained_publishes T xs
      else retained_publishes T xs)"
| "retained_publishes T (x # xs) = retained_publishes T xs"

text \<open>A retained message exists for the topic.\<close>

definition retained_exists :: "state \<Rightarrow> string \<Rightarrow> bool" where
  "retained_exists st T = (tree_get (retained st) T \<noteq> [])"

text \<open>The clients among the values, and how often a session occurs among them.\<close>

fun clients_of :: "val list \<Rightarrow> client list" where
  "clients_of [] = []"
| "clients_of (VClient c # vs) = c # clients_of vs"
| "clients_of (v # vs) = clients_of vs"

text \<open>The stored state of a session: what \<^verbatim>\<open>Reset\<close> discards.\<close>

definition stored_state ::
  "MemorySession \<Rightarrow> Subscription list \<times> (16 word \<times> Message) list \<times> 16 word list \<times> Message list" where
  "stored_state s = (subscriptions s, outgoing s, incoming s, missed s)"

text \<open>
  A step keeps what a session stores: the subscriptions and packets are the same and
  the missed messages are still there, possibly followed by new ones.
\<close>

definition keeps_state :: "MemorySession \<Rightarrow> MemorySession \<Rightarrow> bool" where
  "keeps_state s s' =
     (subscriptions s' = subscriptions s \<and> outgoing s' = outgoing s \<and> incoming s' = incoming s
      \<and> take (length (missed s)) (missed s') = missed s)"


text \<open>What a retained publish leaves in the slot of its topic.\<close>

definition retained_slot :: "Message \<Rightarrow> val list" where
  "retained_slot msg = (if Payload msg = [] then [] else [VMessage msg])"

text \<open>The states a backend can be in: a new backend, with any logins, after any run.\<close>

definition reachable :: "state \<Rightarrow> bool" where
  "reachable st = (\<exists>logins ops. st = run (NewMemoryBackend\<lparr>Logins := logins\<rparr>) ops)"

text \<open>Every registered session has been allocated.\<close>

definition sessions_allocated :: "state \<Rightarrow> bool" where
  "sessions_allocated st = (\<forall>cid a. sessions st cid = Some a \<longrightarrow> a < next_addr st)"

text \<open>
  Every session the state refers to has been allocated: the registered sessions, the
  sessions bound in contexts, those in the offline queue and those of waiting replays.
\<close>

definition refs_allocated :: "state \<Rightarrow> bool" where
  "refs_allocated st =
     ((\<forall>cid a. sessions st cid = Some a \<longrightarrow> a < next_addr st)
      \<and> (\<forall>c k a. contexts st c k = Some (CSession a) \<longrightarrow> a < next_addr st)
      \<and> (\<forall>f a. VSession a \<in> set (tree_get (offlineQueue st) f) \<longrightarrow> a < next_addr st)
      \<and> (\<forall>c a. (c, a) \<in> set (spawned st) \<longrightarrow> a < next_addr st))"

section \<open>Example data\<close>

definition ex_sub :: "8 word \<Rightarrow> Subscription" where
  "ex_sub q = \<lparr>SubTopic = ''test'', SubQOS = q\<rparr>"

definition ex_msg :: "bool \<Rightarrow> 8 word list \<Rightarrow> Message" where
  "ex_msg r p = \<lparr>Topic = ''test'', Payload = p, QOS = 1, Retain = r\<rparr>"


text \<open>
  Client 1 connects as \<^verbatim>\<open>test\<close> with a persistent session and subscribes with QoS 1.
\<close>

definition ex_online :: state where
  "ex_online =
     run NewMemoryBackend
       [Op_Setup 1 ''test'' False, Op_SaveSubscription 1 (ex_sub 1), Op_Subscribe 1 ''test'']"

text \<open>Then it goes offline and a message is published.\<close>

definition ex_offline :: state where
  "ex_offline = run ex_online [Op_Terminate 1]"

definition ex_missed :: state where
  "ex_missed = run ex_offline [Op_Publish 3 (ex_msg False [1])]"

text \<open>With the first client offline, client 5 connects and subscribes.\<close>

definition ex_mixed :: state where
  "ex_mixed = run ex_offline [Op_Setup 5 ''other'' True, Op_Subscribe 5 ''test'']"

text \<open>Client 1 connects as \<^verbatim>\<open>test\<close> with a clean session and subscribes with QoS 1.\<close>

definition ex_clean_online :: state where
  "ex_clean_online =
     run NewMemoryBackend
       [Op_Setup 1 ''test'' True, Op_SaveSubscription 1 (ex_sub 1), Op_Subscribe 1 ''test'']"

text \<open>Client 1 connects as \<^verbatim>\<open>test\<close> with a persistent session and subscribes with QoS 0.\<close>

definition ex_qos0_online :: state where
  "ex_qos0_online =
     run NewMemoryBackend
       [Op_Setup 1 ''test'' False, Op_SaveSubscription 1 (ex_sub 0), Op_Subscribe 1 ''test'']"

text \<open>
  A second client connects with the client id of the first while the first is online;
  the first is closed and terminates; the second unsubscribes.
\<close>

definition ex_takeover :: "op list" where
  "ex_takeover =
     [Op_Setup 1 ''test'' False, Op_SaveSubscription 1 (ex_sub 1), Op_Subscribe 1 ''test'',
      Op_Setup 2 ''test'' False, Op_Terminate 1,
      Op_DeleteSubscription 2 ''test'', Op_Unsubscribe 2 ''test'']"

section \<open>Auxiliary facts\<close>

subsection \<open>Projections of the primitive steps\<close>

lemma Context_Set_fields [simp]:
  "Logins (Context_Set st c k v) = Logins st"
  "queue (Context_Set st c k v) = queue st"
  "retained (Context_Set st c k v) = retained st"
  "offlineQueue (Context_Set st c k v) = offlineQueue st"
  "sessions (Context_Set st c k v) = sessions st"
  "heap (Context_Set st c k v) = heap st"
  "next_addr (Context_Set st c k v) = next_addr st"
  "calls (Context_Set st c k v) = calls st"
  "spawned (Context_Set st c k v) = spawned st"
  "contexts (Context_Set st c k v) = (contexts st)(c := (contexts st c)(k \<mapsto> v))"
  by (simp_all add: Context_Set_def)

lemma client_Close_fields [simp]:
  "Logins (client_Close st c b) = Logins st"
  "queue (client_Close st c b) = queue st"
  "retained (client_Close st c b) = retained st"
  "offlineQueue (client_Close st c b) = offlineQueue st"
  "sessions (client_Close st c b) = sessions st"
  "heap (client_Close st c b) = heap st"
  "next_addr (client_Close st c b) = next_addr st"
  "contexts (client_Close st c b) = contexts st"
  "spawned (client_Close st c b) = spawned st"
  "calls (client_Close st c b) = calls st @ [Call_Close c b]"
  by (simp_all add: client_Close_def)

lemma set_currentClient_fields [simp]:
  "Logins (set_currentClient st a x) = Logins st"
  "queue (set_currentClient st a x) = queue st"
  "retained (set_currentClient st a x) = retained st"
  "offlineQueue (set_currentClient st a x) = offlineQueue st"
  "sessions (set_currentClient st a x) = sessions st"
  "next_addr (set_currentClient st a x) = next_addr st"
  "contexts (set_currentClient st a x) = contexts st"
  "spawned (set_currentClient st a x) = spawned st"
  "calls (set_currentClient st a x) = calls st"
  "heap (set_currentClient st a x) = (heap st)(a := (heap st a)\<lparr>currentClient := x\<rparr>)"
  by (simp_all add: set_currentClient_def)

lemma Context_Get_simps [simp]:
  "Context_Get (Context_Set st c k v) c' k' =
     (if c' = c \<and> k' = k then Some v else Context_Get st c' k')"
  "Context_Get (client_Close st c b) c' k' = Context_Get st c' k'"
  "Context_Get (set_currentClient st a x) c' k' = Context_Get st c' k'"
  "Context_Get (st\<lparr>queue := q\<rparr>) c' k' = Context_Get st c' k'"
  "Context_Get (st\<lparr>heap := h\<rparr>) c' k' = Context_Get st c' k'"
  "Context_Get (st\<lparr>offlineQueue := oq\<rparr>) c' k' = Context_Get st c' k'"
  "Context_Get (st\<lparr>spawned := sp\<rparr>) c' k' = Context_Get st c' k'"
  "Context_Get (st\<lparr>sessions := ss\<rparr>) c' k' = Context_Get st c' k'"
  "Context_Get (st\<lparr>retained := r\<rparr>) c' k' = Context_Get st c' k'"
  "Context_Get (st\<lparr>calls := cs\<rparr>) c' k' = Context_Get st c' k'"
  "Context_Get (st\<lparr>next_addr := n\<rparr>) c' k' = Context_Get st c' k'"
  by (simp_all add: Context_Get_def Context_Set_def)

lemma session_Reset_fields [simp]:
  "subscriptions (session_Reset s) = []"
  "outgoing (session_Reset s) = []"
  "incoming (session_Reset s) = []"
  "missed (session_Reset s) = []"
  "currentClient (session_Reset s) = currentClient s"
  by (simp_all add: session_Reset_def)

subsection \<open>Tree lemmas\<close>

lemma tree_get_update:
  "tree_get (AList.update f vs t) g = (if g = f then vs else tree_get t g)"
  by (simp add: tree_get_def update_conv')

lemma tree_get_Add:
  "tree_get (tree_Add t f v) g =
     (if g = f then (if v \<in> set (tree_get t f) then tree_get t f else tree_get t f @ [v])
      else tree_get t g)"
  by (simp add: tree_Add_def Let_def tree_get_update)

lemma tree_get_Set: "tree_get (tree_Set t f v) g = (if g = f then [v] else tree_get t g)"
  by (simp add: tree_Set_def tree_get_update)

lemma tree_get_Empty: "tree_get (tree_Empty t f) g = (if g = f then [] else tree_get t g)"
  by (simp add: tree_Empty_def tree_get_update)

lemma tree_get_Clear: "tree_get (tree_Clear t v) g = removeAll v (tree_get t g)"
  by (induction t) (auto simp: tree_Clear_def tree_get_def)

lemma tree_get_Remove:
  "tree_get (tree_Remove t f v) g = (if g = f then removeAll v (tree_get t f) else tree_get t g)"
  by (auto simp: tree_Remove_def tree_get_update split: option.splits) (simp_all add: tree_get_def)

lemma tree_get_not_key: "f \<notin> set (tree_keys t) \<Longrightarrow> tree_get t f = []"
  by (simp add: tree_get_def tree_keys_def map_of_eq_None_iff [THEN iffD2] split: option.splits)

lemma in_tree_values: "v \<in> set (tree_values t) \<longleftrightarrow> (\<exists>f. v \<in> set (tree_get t f))"
  using tree_get_not_key [of _ t] by (fastforce simp: tree_values_def)

lemma tree_keys_Clear: "tree_keys (tree_Clear t v) = tree_keys t"
  by (simp add: tree_keys_def tree_Clear_def case_prod_unfold comp_def)

subsection \<open>Whole-state equations for the folds\<close>

lemma fold_publish_online:
  "fold (publish_online msg) vs st = st\<lparr>calls := calls st @ map (\<lambda>c. Call_Publish c msg) (clients_of vs)\<rparr>"
proof (induction vs arbitrary: st)
  case Nil
  then show ?case by simp
next
  case (Cons v vs)
  then show ?case by (cases v) (simp_all add: publish_online_def client_Publish_def)
qed

lemma publish_offline_simps:
  "publish_offline msg (VSession b) st = st\<lparr>heap := (heap st)(b := session_queue (heap st b) msg)\<rparr>"
  "publish_offline msg (VClient c) st = st"
  "publish_offline msg (VMessage m) st = st"
  by (simp_all add: publish_offline_def)

lemma heap_fold_publish_offline:
  "heap (fold (publish_offline msg) vs st) a =
     (heap st a)\<lparr>missed := missed (heap st a) @ replicate (count_list vs (VSession a)) msg\<rparr>"
proof (induction vs arbitrary: st)
  case Nil
  then show ?case by simp
next
  case (Cons v vs)
  show ?case
    by (cases v) (simp_all add: Cons.IH publish_offline_simps session_queue_def replicate_app_Cons_same)
qed

lemma fold_publish_offline:
  "fold (publish_offline msg) vs st = st\<lparr>heap := heap (fold (publish_offline msg) vs st)\<rparr>"
proof (induction vs arbitrary: st)
  case Nil
  then show ?case by simp
next
  case (Cons v vs)
  show ?case
    by (cases v) (simp_all add: publish_offline_simps, (subst Cons.IH, simp)+)
qed

lemma fold_register_offline:
  "fold (register_offline a) subs st =
     st\<lparr>offlineQueue := fold (\<lambda>f t. tree_Add t f (VSession a)) (offline_filters subs) (offlineQueue st)\<rparr>"
  by (induction subs arbitrary: st) (simp_all add: register_offline_def)

lemma set_tree_get_fold_Add:
  "set (tree_get (fold (\<lambda>f t. tree_Add t f v) fs t) g) =
     (if g \<in> set fs then insert v (set (tree_get t g)) else set (tree_get t g))"
  by (induction fs arbitrary: t) (auto simp: tree_get_Add)

lemma fold_client_Publish:
  "fold (\<lambda>msg s. client_Publish s c msg) msgs st = st\<lparr>calls := calls st @ map (Call_Publish c) msgs\<rparr>"
  by (induction msgs arbitrary: st) (simp_all add: client_Publish_def)

subsection \<open>What each operation does to each part of the state\<close>

lemma Setup_empty:
  "Setup st c [] clean =
     (st\<lparr>heap := (heap st)(next_addr st := NewMemorySession),
         next_addr := Suc (next_addr st),
         contexts := (contexts st)(c := (contexts st c)(''clean'' \<mapsto> CBool clean,
                                                       ''session'' \<mapsto> CSession (next_addr st)))\<rparr>,
      next_addr st, False, None)"
  by (simp add: Setup_def Let_def alloc_session_def Context_Set_def)

lemma Setup_new:
  "cid \<noteq> [] \<Longrightarrow> sessions st cid = None \<Longrightarrow>
   Setup st c cid clean =
     (st\<lparr>heap := (heap st)(next_addr st := NewMemorySession\<lparr>currentClient := Some c\<rparr>),
         next_addr := Suc (next_addr st),
         sessions := (sessions st)(cid \<mapsto> next_addr st),
         contexts := (contexts st)(c := (contexts st c)(''clean'' \<mapsto> CBool clean,
                                                       ''session'' \<mapsto> CSession (next_addr st)))\<rparr>,
      next_addr st, False, None)"
  by (simp add: Setup_def Let_def alloc_session_def Context_Set_def set_currentClient_def)

lemma Setup_stored:
  "cid \<noteq> [] \<Longrightarrow> sessions st cid = Some a \<Longrightarrow>
   Setup st c cid clean =
     (st\<lparr>heap := (heap st)(a := (if clean
                                   then session_Reset ((heap st a)\<lparr>currentClient := Some c\<rparr>)
                                   else (heap st a)\<lparr>currentClient := Some c\<rparr>)),
         offlineQueue := tree_Clear (offlineQueue st) (VSession a),
         calls := calls st @ (case currentClient (heap st a) of
                                Some old \<Rightarrow> [Call_Close old True] | None \<Rightarrow> []),
         spawned := spawned st @ [(c, a)],
         contexts := (contexts st)(c := (contexts st c)(''clean'' \<mapsto> CBool clean,
                                                       ''session'' \<mapsto> CSession a))\<rparr>,
      a, True, None)"
  by (simp add: Setup_def Let_def Context_Set_def set_currentClient_def client_Close_def
      split: option.splits)

lemma Publish_eq:
  "Publish st c msg =
     ((publish_retain st msg)
        \<lparr>calls := calls st @ map (\<lambda>c. Call_Publish c msg) (clients_of (tree_Match (queue st) (Topic msg))),
         heap := (\<lambda>a. (heap st a)\<lparr>missed := missed (heap st a)
                    @ replicate (count_list (tree_Match (offlineQueue st) (Topic msg)) (VSession a)) msg\<rparr>)\<rparr>,
      None)"
proof -
  have r: "queue (publish_retain st msg) = queue st" "calls (publish_retain st msg) = calls st"
    "offlineQueue (publish_retain st msg) = offlineQueue st" "heap (publish_retain st msg) = heap st"
    by (simp_all add: publish_retain_def)
  have h: "heap (fold (publish_offline msg) vs (publish_retain st msg\<lparr>calls := cs\<rparr>)) =
      (\<lambda>a. (heap st a)\<lparr>missed := missed (heap st a) @ replicate (count_list vs (VSession a)) msg\<rparr>)"
    for vs cs
    by (rule ext) (simp add: heap_fold_publish_offline r)
  show ?thesis
    apply (simp add: Publish_def Let_def)
    apply (subst fold_publish_offline)
    apply (simp add: fold_publish_online r h)
    done
qed

lemma Terminate_unbound:
  "(\<forall>a. Context_Get st c ''session'' \<noteq> Some (CSession a)) \<Longrightarrow>
   Terminate st c = (st\<lparr>queue := tree_Clear (queue st) (VClient c)\<rparr>, None)"
  by (auto simp: Terminate_def Let_def split: option.splits ctxval.splits)

lemma Terminate_clean:
  "Context_Get st c ''session'' = Some (CSession a) \<Longrightarrow>
   Context_Get st c ''clean'' = Some (CBool True) \<Longrightarrow>
   Terminate st c =
     (st\<lparr>queue := tree_Clear (queue st) (VClient c),
         heap := (heap st)(a := session_Reset ((heap st a)\<lparr>currentClient := None\<rparr>))\<rparr>, None)"
  by (simp add: Terminate_def Let_def set_currentClient_def)

lemma Terminate_persistent:
  "Context_Get st c ''session'' = Some (CSession a) \<Longrightarrow>
   Context_Get st c ''clean'' \<noteq> Some (CBool True) \<Longrightarrow>
   Terminate st c =
     (st\<lparr>queue := tree_Clear (queue st) (VClient c),
         heap := (heap st)(a := (heap st a)\<lparr>currentClient := None\<rparr>),
         offlineQueue := fold (\<lambda>f t. tree_Add t f (VSession a))
                           (offline_filters (subscriptions (heap st a))) (offlineQueue st)\<rparr>, None)"
  by (auto simp: Terminate_def Let_def set_currentClient_def AllSubscriptions_def
      fold_register_offline split: option.splits ctxval.splits bool.splits)

subsection \<open>The example states, evaluated\<close>

lemmas eval_defs =
  NewMemoryBackend_def NewTree_def NewMemorySession_def Setup_def Subscribe_def Unsubscribe_def
  Publish_def Terminate_def Let_def alloc_session_def Context_Set_def Context_Get_def
  set_currentClient_def client_Close_def client_Publish_def session_Reset_def tree_Clear_def
  tree_Add_def tree_get_def tree_Remove_def tree_Set_def tree_Empty_def tree_Match_def
  tree_Search_def tree_keys_def tree_values_def topic_matches_def
  AllSubscriptions_def SaveSubscription_def DeleteSubscription_def session_queue_def
  session_missed_def register_offline_def publish_retain_def publish_online_def
  publish_offline_def on_session_def run_spawned_def replay_def
  ex_sub_def ex_msg_def


lemma ex_offline_eval:
  "sessions ex_offline ''test'' = Some 0"
  "currentClient (heap ex_offline 0) = None"
  "subscriptions (heap ex_offline 0) = [ex_sub 1]"
  "offlineQueue ex_offline = [(''test'', [VSession 0])]"
  "calls ex_offline = []"
  by (simp_all add: ex_offline_def ex_online_def eval_defs)

lemma ex_mixed_eval:
  "queue ex_mixed = [(''test'', [VClient 5])]"
  "offlineQueue ex_mixed = [(''test'', [VSession 0])]"
  "missed (heap ex_mixed 0) = []"
  "calls ex_mixed = []"
  by (simp_all add: ex_mixed_def ex_offline_def ex_online_def eval_defs)

lemma ex_missed_eval:
  "sessions ex_missed ''test'' = Some 0"
  "missed (heap ex_missed 0) = [ex_msg False [1]]"
  "offlineQueue ex_missed = [(''test'', [VSession 0])]"
  by (simp_all add: ex_missed_def ex_offline_def ex_online_def eval_defs)

lemma set_clients_of: "set (clients_of vs) = {c. VClient c \<in> set vs}"
  by (induction vs rule: clients_of.induct) auto


lemma offline_member_iff: "offline_member st a \<longleftrightarrow> (\<exists>f. registered_under st f a)"
  by (simp add: offline_member_def registered_under_def in_tree_values)

subsection \<open>Operations, field by field\<close>

lemma replay_eq:
  "replay st c a =
     st\<lparr>heap := (heap st)(a := (heap st a)\<lparr>missed := []\<rparr>),
        calls := calls st @ map (Call_Publish c) (missed (heap st a))\<rparr>"
  by (simp add: replay_def session_missed_def fold_client_Publish)

lemma Setup_cases:
  obtains (empty) "cid = []"
  | (new) "cid \<noteq> []" "sessions st cid = None"
  | (stored) a where "cid \<noteq> []" "sessions st cid = Some a"
  by (cases "sessions st cid") auto

lemma Terminate_cases:
  obtains (unbound) "\<forall>a. Context_Get st c ''session'' \<noteq> Some (CSession a)"
  | (clean) a where "Context_Get st c ''session'' = Some (CSession a)"
      "Context_Get st c ''clean'' = Some (CBool True)"
  | (persistent) a where "Context_Get st c ''session'' = Some (CSession a)"
      "Context_Get st c ''clean'' \<noteq> Some (CBool True)"
  by blast

lemma Setup_sessions:
  "sessions (fst (Setup st c cid clean)) =
     (if cid \<noteq> [] \<and> sessions st cid = None then (sessions st)(cid \<mapsto> next_addr st)
      else sessions st)"
  by (cases rule: Setup_cases [where cid = cid and st = st]) (simp_all add: Setup_empty Setup_new Setup_stored)

lemma Setup_next_addr:
  "next_addr (fst (Setup st c cid clean)) =
     (if cid = [] \<or> sessions st cid = None then Suc (next_addr st) else next_addr st)"
  by (cases rule: Setup_cases [where cid = cid and st = st]) (simp_all add: Setup_empty Setup_new Setup_stored)

lemma Setup_retained: "retained (fst (Setup st c cid clean)) = retained st"
  by (cases rule: Setup_cases [where cid = cid and st = st]) (simp_all add: Setup_empty Setup_new Setup_stored)

lemma Setup_offlineQueue:
  "offlineQueue (fst (Setup st c cid clean)) =
     (if cid = [] then offlineQueue st
      else case sessions st cid of
             None \<Rightarrow> offlineQueue st
           | Some a \<Rightarrow> tree_Clear (offlineQueue st) (VSession a))"
  by (cases rule: Setup_cases [where cid = cid and st = st]) (simp_all add: Setup_empty Setup_new Setup_stored)

lemma Terminate_sessions [simp]: "sessions (fst (Terminate st c)) = sessions st"
  and Terminate_next_addr [simp]: "next_addr (fst (Terminate st c)) = next_addr st"
  and Terminate_retained [simp]: "retained (fst (Terminate st c)) = retained st"
  and Terminate_contexts [simp]: "contexts (fst (Terminate st c)) = contexts st"
  by (cases rule: Terminate_cases [where st = st and c = c];
      simp add: Terminate_unbound Terminate_clean Terminate_persistent)+

lemma Publish_fields [simp]:
  "sessions (fst (Publish st c msg)) = sessions st"
  "next_addr (fst (Publish st c msg)) = next_addr st"
  "offlineQueue (fst (Publish st c msg)) = offlineQueue st"
  "contexts (fst (Publish st c msg)) = contexts st"
  "retained (fst (Publish st c msg)) = retained (publish_retain st msg)"
  by (simp_all add: Publish_eq publish_retain_def)

lemma Subscribe_eq: "fst (Subscribe st c topic) = st\<lparr>queue := tree_Add (queue st) topic (VClient c)\<rparr>"
  by (simp add: Subscribe_def Let_def)

lemma Unsubscribe_eq:
  "fst (Unsubscribe st c topic) = st\<lparr>queue := tree_Remove (queue st) topic (VClient c)\<rparr>"
  by (simp add: Unsubscribe_def)

lemma on_session_fields [simp]:
  "sessions (on_session st c f) = sessions st"
  "next_addr (on_session st c f) = next_addr st"
  "offlineQueue (on_session st c f) = offlineQueue st"
  "contexts (on_session st c f) = contexts st"
  "retained (on_session st c f) = retained st"
  by (simp_all add: on_session_def split: option.splits ctxval.splits)

lemma run_spawned_fields [simp]:
  "sessions (run_spawned st n) = sessions st"
  "next_addr (run_spawned st n) = next_addr st"
  "offlineQueue (run_spawned st n) = offlineQueue st"
  "contexts (run_spawned st n) = contexts st"
  "retained (run_spawned st n) = retained st"
  by (simp_all add: run_spawned_def replay_eq split: prod.splits)

lemma apply_op_retained:
  "retained (apply_op st x) =
     (case x of Op_Publish c msg \<Rightarrow> retained (publish_retain st msg) | _ \<Rightarrow> retained st)"
  by (cases x) (simp_all add: Setup_retained Subscribe_eq Unsubscribe_eq)

lemma run_append: "run st (xs @ ys) = run (run st xs) ys"
  by (induction xs arbitrary: st) simp_all

subsection \<open>The retained store\<close>

lemma publish_retain_slot:
  "tree_get (retained (publish_retain st msg)) T =
     (if Retain msg \<and> Topic msg = T then retained_slot msg else tree_get (retained st) T)"
  by (simp add: publish_retain_def retained_slot_def tree_get_Set tree_get_Empty)

lemma retained_run:
  "tree_get (retained (run st ops)) T =
     (if retained_publishes T ops = [] then tree_get (retained st) T
      else retained_slot (last (retained_publishes T ops)))"
proof (induction ops arbitrary: st)
  case Nil
  then show ?case by simp
next
  case (Cons x xs)
  show ?case
    by (cases x) (simp_all add: Cons.IH apply_op_retained publish_retain_slot
        Setup_retained Subscribe_eq Unsubscribe_eq)
qed

subsection \<open>Allocation\<close>

lemma Setup_result:
  "snd (Setup st c cid clean) =
     (if cid = [] then (next_addr st, False, None)
      else case sessions st cid of
             None \<Rightarrow> (next_addr st, False, None)
           | Some a \<Rightarrow> (a, True, None))"
  by (cases rule: Setup_cases [where cid = cid and st = st])
    (simp_all add: Setup_empty Setup_new Setup_stored)

lemma apply_op_sessions:
  "sessions (apply_op st x) =
     (case x of
        Op_Setup c cid clean \<Rightarrow>
          (if cid \<noteq> [] \<and> sessions st cid = None then (sessions st)(cid \<mapsto> next_addr st)
           else sessions st)
      | _ \<Rightarrow> sessions st)"
  by (cases x) (simp_all add: Setup_sessions Subscribe_eq Unsubscribe_eq)

lemma apply_op_next_addr:
  "next_addr (apply_op st x) =
     (case x of
        Op_Setup c cid clean \<Rightarrow>
          (if cid = [] \<or> sessions st cid = None then Suc (next_addr st) else next_addr st)
      | _ \<Rightarrow> next_addr st)"
  by (cases x) (simp_all add: Setup_next_addr Subscribe_eq Unsubscribe_eq)

lemma sessions_allocated_apply_op:
  "sessions_allocated st \<Longrightarrow> sessions_allocated (apply_op st x)"
  by (auto simp: sessions_allocated_def apply_op_sessions apply_op_next_addr less_Suc_eq
      split: op.splits if_splits)

lemma sessions_allocated_run: "sessions_allocated st \<Longrightarrow> sessions_allocated (run st ops)"
  by (induction ops arbitrary: st) (simp_all add: sessions_allocated_apply_op)

lemma reachable_sessions_allocated: "reachable st \<Longrightarrow> sessions_allocated st"
  by (auto simp: reachable_def intro!: sessions_allocated_run)
    (simp add: sessions_allocated_def NewMemoryBackend_def)

lemma unregistered_apply_op:
  assumes "sessions_allocated st" and "a < next_addr st" and "\<forall>cid. sessions st cid \<noteq> Some a"
  shows "a < next_addr (apply_op st x) \<and> (\<forall>cid. sessions (apply_op st x) cid \<noteq> Some a)"
  using assms
  by (auto simp: sessions_allocated_def apply_op_sessions apply_op_next_addr split: op.splits)

lemma unregistered_run:
  assumes "sessions_allocated st" and "a < next_addr st" and "\<forall>cid. sessions st cid \<noteq> Some a"
  shows "a < next_addr (run st ops) \<and> (\<forall>cid. sessions (run st ops) cid \<noteq> Some a)"
  using assms
proof (induction ops arbitrary: st)
  case Nil
  then show ?case by simp
next
  case (Cons x xs)
  from unregistered_apply_op [OF Cons.prems] sessions_allocated_apply_op [OF Cons.prems(1)]
  show ?case by (simp add: Cons.IH)
qed

lemma reachable_New: "reachable NewMemoryBackend"
proof -
  have "NewMemoryBackend = run (NewMemoryBackend\<lparr>Logins := None\<rparr>) []"
    by (simp add: NewMemoryBackend_def)
  then show ?thesis unfolding reachable_def by blast
qed

lemma reachable_run: "reachable st \<Longrightarrow> reachable (run st ops)"
  unfolding reachable_def by (metis run_append)

lemma reachable_examples:
  "reachable ex_online" "reachable ex_offline" "reachable ex_missed" "reachable ex_mixed"
  "reachable ex_clean_online"
  unfolding ex_online_def ex_offline_def ex_missed_def ex_mixed_def ex_clean_online_def
  by (intro reachable_run reachable_New)+

subsection \<open>What the backend calls do to a stored session\<close>



lemma keeps_state_refl [simp]: "keeps_state s s"
  and keeps_state_currentClient [simp]: "keeps_state s (s\<lparr>currentClient := x\<rparr>)"
  by (simp_all add: keeps_state_def)

lemma stored_state_Reset [simp]: "stored_state (session_Reset s) = ([], [], [], [])"
  by (simp add: stored_state_def)


subsection \<open>The offline queue\<close>

lemma holds_offline_sub_iff:
  "holds_offline_sub s f \<longleftrightarrow> f \<in> set (offline_filters (subscriptions s))"
proof -
  have "list_ex (\<lambda>sub. SubTopic sub = f \<and> 1 \<le> SubQOS sub) subs \<longleftrightarrow> f \<in> set (offline_filters subs)"
    for subs
    by (induction subs) auto
  then show ?thesis by (simp add: holds_offline_sub_def)
qed

lemma Terminate_registered:
  "registered_under (fst (Terminate st c)) f b \<longleftrightarrow>
     registered_under st f b
     \<or> (Context_Get st c ''session'' = Some (CSession b)
        \<and> Context_Get st c ''clean'' \<noteq> Some (CBool True)
        \<and> holds_offline_sub (heap st b) f)"
  by (cases rule: Terminate_cases [where st = st and c = c])
    (auto simp: Terminate_unbound Terminate_clean Terminate_persistent registered_under_def
      set_tree_get_fold_Add holds_offline_sub_iff)

lemma Terminate_offlineQueue_clean:
  "Context_Get st c ''clean'' = Some (CBool True) \<Longrightarrow>
   offlineQueue (fst (Terminate st c)) = offlineQueue st"
  by (cases rule: Terminate_cases [where st = st and c = c])
    (simp_all add: Terminate_unbound Terminate_clean)

lemma Setup_registered:
  "registered_under (fst (Setup st c cid clean)) f b \<Longrightarrow> registered_under st f b"
  by (cases rule: Setup_cases [where cid = cid and st = st])
    (auto simp: Setup_empty Setup_new Setup_stored registered_under_def tree_get_Clear)

lemma newly_registered:
  assumes "registered_under (apply_op st x) f a" and "\<not> registered_under st f a"
  shows "\<exists>c. x = Op_Terminate c \<and> Context_Get st c ''session'' = Some (CSession a)
          \<and> Context_Get st c ''clean'' \<noteq> Some (CBool True) \<and> holds_offline_sub (heap st a) f"
proof (cases x)
  case (Op_Setup c cid clean)
  with assms Setup_registered show ?thesis by auto
next
  case (Op_Terminate c)
  with assms show ?thesis by (simp add: Terminate_registered)
qed (use assms in \<open>simp_all add: registered_under_def Subscribe_eq Unsubscribe_eq\<close>)

text \<open>A client with a session in its context has its clean flag there too.\<close>

lemma Setup_contexts:
  "contexts (fst (Setup st c cid clean)) =
     (contexts st)(c := (contexts st c)(''clean'' \<mapsto> CBool clean,
        ''session'' \<mapsto> CSession (fst (snd (Setup st c cid clean)))))"
  by (cases rule: Setup_cases [where cid = cid and st = st])
    (simp_all add: Setup_empty Setup_new Setup_stored)

lemma apply_op_contexts:
  "contexts (apply_op st x) =
     (case x of
        Op_Setup c cid clean \<Rightarrow>
          (contexts st)(c := (contexts st c)(''clean'' \<mapsto> CBool clean,
             ''session'' \<mapsto> CSession (fst (snd (Setup st c cid clean)))))
      | _ \<Rightarrow> contexts st)"
  by (cases x) (simp_all add: Setup_contexts Subscribe_eq Unsubscribe_eq)

lemma clean_flag_apply_op:
  assumes "\<forall>c a. Context_Get st c ''session'' = Some (CSession a) \<longrightarrow>
             (\<exists>b. Context_Get st c ''clean'' = Some (CBool b))"
  shows "\<forall>c a. Context_Get (apply_op st x) c ''session'' = Some (CSession a) \<longrightarrow>
             (\<exists>b. Context_Get (apply_op st x) c ''clean'' = Some (CBool b))"
  using assms by (auto simp: Context_Get_def apply_op_contexts split: op.splits)

lemma clean_flag_run:
  assumes "\<forall>c a. Context_Get st c ''session'' = Some (CSession a) \<longrightarrow>
             (\<exists>b. Context_Get st c ''clean'' = Some (CBool b))"
  shows "\<forall>c a. Context_Get (run st ops) c ''session'' = Some (CSession a) \<longrightarrow>
             (\<exists>b. Context_Get (run st ops) c ''clean'' = Some (CBool b))"
  using assms
proof (induction ops arbitrary: st)
  case Nil
  then show ?case by simp
next
  case (Cons x xs)
  from clean_flag_apply_op [OF Cons.prems] show ?case
    by (simp add: Cons.IH)
qed

lemma clean_flag_reachable:
  "reachable st \<Longrightarrow> Context_Get st c ''session'' = Some (CSession a) \<Longrightarrow>
   \<exists>b. Context_Get st c ''clean'' = Some (CBool b)"
proof -
  have "\<forall>c a. Context_Get (NewMemoryBackend\<lparr>Logins := l\<rparr>) c ''session'' = Some (CSession a) \<longrightarrow>
      (\<exists>b. Context_Get (NewMemoryBackend\<lparr>Logins := l\<rparr>) c ''clean'' = Some (CBool b))" for l
    by (simp add: Context_Get_def NewMemoryBackend_def)
  from clean_flag_run [OF this]
  show "reachable st \<Longrightarrow> Context_Get st c ''session'' = Some (CSession a) \<Longrightarrow>
    \<exists>b. Context_Get st c ''clean'' = Some (CBool b)"
    unfolding reachable_def by blast
qed

lemma registered_origin:
  assumes "reachable st" and "\<forall>f a. \<not> registered_under st f a"
    and "registered_under (run st ops) f a"
  shows "\<exists>ops1 c ops2. ops = ops1 @ Op_Terminate c # ops2
           \<and> bound_client (run st ops1) c a False
           \<and> holds_offline_sub (heap (run st ops1) a) f"
  using assms(3)
proof (induction ops rule: rev_induct)
  case Nil
  with assms(2) show ?case by simp
next
  case (snoc x xs)
  show ?case
  proof (cases "registered_under (run st xs) f a")
    case True
    from snoc.IH [OF this] obtain ops1 c ops2 where
      "xs = ops1 @ Op_Terminate c # ops2" "bound_client (run st ops1) c a False"
      "holds_offline_sub (heap (run st ops1) a) f"
      by blast
    then have "xs @ [x] = ops1 @ Op_Terminate c # (ops2 @ [x])" by simp
    with \<open>bound_client (run st ops1) c a False\<close> \<open>holds_offline_sub (heap (run st ops1) a) f\<close>
    show ?thesis by blast
  next
    case False
    from snoc.prems have "registered_under (apply_op (run st xs) x) f a"
      by (simp add: run_append)
    from newly_registered [OF this False] obtain c where
      c: "x = Op_Terminate c" "Context_Get (run st xs) c ''session'' = Some (CSession a)"
        "Context_Get (run st xs) c ''clean'' \<noteq> Some (CBool True)"
        "holds_offline_sub (heap (run st xs) a) f"
      by blast
    from clean_flag_reachable [OF reachable_run [OF assms(1)] c(2)] c(3)
    have "Context_Get (run st xs) c ''clean'' = Some (CBool False)"
      by auto
    with c have "bound_client (run st xs) c a False" by (simp add: bound_client_def)
    with c(1,4) show ?thesis by blast
  qed
qed

lemma ex_offline_run:
  "ex_offline = run (NewMemoryBackend\<lparr>Logins := None\<rparr>)
     ([Op_Setup 1 ''test'' False, Op_SaveSubscription 1 (ex_sub 1), Op_Subscribe 1 ''test'']
      @ [Op_Terminate 1])"
proof -
  have "NewMemoryBackend\<lparr>Logins := None\<rparr> = NewMemoryBackend"
    by (simp add: NewMemoryBackend_def)
  then show ?thesis
    unfolding run_append by (simp add: ex_offline_def ex_online_def)
qed

subsection \<open>Every reference is allocated\<close>

lemma Setup_spawned:
  "spawned (fst (Setup st c cid clean)) =
     (if cid = [] then spawned st
      else case sessions st cid of
             None \<Rightarrow> spawned st
           | Some a \<Rightarrow> spawned st @ [(c, a)])"
  by (cases rule: Setup_cases [where cid = cid and st = st])
    (simp_all add: Setup_empty Setup_new Setup_stored)

lemma Terminate_offlineQueue:
  "set (tree_get (offlineQueue (fst (Terminate st c))) f) \<subseteq>
     set (tree_get (offlineQueue st) f)
     \<union> {VSession a |a. Context_Get st c ''session'' = Some (CSession a)}"
  by (cases rule: Terminate_cases [where st = st and c = c])
    (auto simp: Terminate_unbound Terminate_clean Terminate_persistent set_tree_get_fold_Add
      split: if_splits)

lemma Terminate_spawned [simp]: "spawned (fst (Terminate st c)) = spawned st"
  by (cases rule: Terminate_cases [where st = st and c = c])
    (simp_all add: Terminate_unbound Terminate_clean Terminate_persistent)

lemma Publish_spawned [simp]: "spawned (fst (Publish st c msg)) = spawned st"
  by (simp add: Publish_eq publish_retain_def)

lemma on_session_spawned [simp]: "spawned (on_session st c f) = spawned st"
  by (simp add: on_session_def split: option.splits ctxval.splits)

lemma run_spawned_spawned: "set (spawned (run_spawned st n)) \<subseteq> set (spawned st)"
  by (auto simp: run_spawned_def replay_eq split: prod.splits dest: in_set_takeD in_set_dropD)

lemma refs_allocated_apply_op:
  assumes "refs_allocated st"
  shows "refs_allocated (apply_op st x)"
proof (cases x)
  case (Op_Setup c cid clean)
  have r: "fst (snd (Setup st c cid clean)) < next_addr (fst (Setup st c cid clean))"
    using assms
    by (auto simp: refs_allocated_def Setup_result Setup_next_addr split: option.splits)
  have n: "next_addr st \<le> next_addr (fst (Setup st c cid clean))"
    by (simp add: Setup_next_addr)
  have "a < next_addr (fst (Setup st c cid clean))"
    if "sessions (fst (Setup st c cid clean)) cid' = Some a" for cid' a
    using that assms n
    by (auto simp: refs_allocated_def Setup_sessions Setup_next_addr less_Suc_eq split: if_splits)
  moreover have "a < next_addr (fst (Setup st c cid clean))"
    if "contexts (fst (Setup st c cid clean)) c' k = Some (CSession a)" for c' k a
    using that assms n r
    by (auto simp: refs_allocated_def Setup_contexts split: if_splits) (meson less_le_trans)+
  moreover have "a < next_addr (fst (Setup st c cid clean))"
    if "VSession a \<in> set (tree_get (offlineQueue (fst (Setup st c cid clean))) f)" for f a
    using that assms n
    by (auto simp: refs_allocated_def Setup_offlineQueue tree_get_Clear
        split: if_splits option.splits) (meson less_le_trans)+
  moreover have "a < next_addr (fst (Setup st c cid clean))"
    if "(c', a) \<in> set (spawned (fst (Setup st c cid clean)))" for c' a
    using that assms n
    by (auto simp: refs_allocated_def Setup_spawned Setup_next_addr
        split: if_splits option.splits) (meson less_le_trans less_Suc_eq)+
  ultimately show ?thesis
    unfolding refs_allocated_def Op_Setup apply_op.simps by blast
next
  case (Op_Terminate c)
  have "a < next_addr st" if "VSession a \<in> set (tree_get (offlineQueue (fst (Terminate st c))) f)"
    for f a
    using that assms Terminate_offlineQueue [of st c f]
    by (auto simp: refs_allocated_def Context_Get_def)
  with assms Op_Terminate show ?thesis
    by (simp add: refs_allocated_def)
next
  case (Op_Replay n)
  with assms run_spawned_spawned [of st n] show ?thesis
    by (auto simp: refs_allocated_def)
qed (use assms in \<open>simp_all add: refs_allocated_def Subscribe_eq Unsubscribe_eq\<close>)

lemma refs_allocated_run: "refs_allocated st \<Longrightarrow> refs_allocated (run st ops)"
  by (induction ops arbitrary: st) (simp_all add: refs_allocated_apply_op)

lemma reachable_refs_allocated: "reachable st \<Longrightarrow> refs_allocated st"
proof -
  have "refs_allocated (NewMemoryBackend\<lparr>Logins := l\<rparr>)" for l
    by (simp add: refs_allocated_def NewMemoryBackend_def NewTree_def tree_get_def)
  then show "reachable st \<Longrightarrow> refs_allocated st"
    unfolding reachable_def by (auto intro: refs_allocated_run)
qed

section \<open>Properties\<close>

subsection \<open>Offline-queue membership\<close>

text \<open>
  C1 (as amended). \<^verbatim>\<open>Terminate\<close> of a client with a bound session and clean not set
  registers the session in the offline queue under exactly the filters of its
  subscriptions with QoS at least 1, never under another filter, and changes no other
  registration; when clean was set it registers nothing; \<^verbatim>\<open>Setup\<close> resumption removes
  the session from the offline queue. A step newly registers a session under a filter
  only if it is such a \<^verbatim>\<open>Terminate\<close>. Hence in every state reached by a run of a new
  backend, a session is registered under a filter only if an earlier \<^verbatim>\<open>Terminate\<close> in
  the run was called for a client bound to that session that had connected with
  clean = false, at a moment when the session held a subscription to that filter with
  QoS at least 1.
\<close>

theorem offline_membership:
  "(Context_Get st c ''session'' = Some (CSession a)
      \<and> Context_Get st c ''clean'' \<noteq> Some (CBool True) \<longrightarrow>
      (\<forall>f b. registered_under (fst (Terminate st c)) f b \<longleftrightarrow>
         registered_under st f b \<or> (b = a \<and> holds_offline_sub (heap st a) f)))
   \<and> (Context_Get st c ''clean'' = Some (CBool True) \<longrightarrow>
      offlineQueue (fst (Terminate st c)) = offlineQueue st)
   \<and> (cid \<noteq> [] \<and> sessions st cid = Some a \<longrightarrow>
      \<not> offline_member (fst (Setup st c cid clean)) a)
   \<and> (registered_under (apply_op st x) f a \<and> \<not> registered_under st f a \<longrightarrow>
      (\<exists>c'. x = Op_Terminate c' \<and> Context_Get st c' ''session'' = Some (CSession a)
         \<and> Context_Get st c' ''clean'' \<noteq> Some (CBool True) \<and> holds_offline_sub (heap st a) f))
   \<and> (registered_under (run (NewMemoryBackend\<lparr>Logins := logins\<rparr>) ops) f a \<longrightarrow>
      (\<exists>ops1 c' ops2. ops = ops1 @ Op_Terminate c' # ops2
         \<and> bound_client (run (NewMemoryBackend\<lparr>Logins := logins\<rparr>) ops1) c' a False
         \<and> holds_offline_sub (heap (run (NewMemoryBackend\<lparr>Logins := logins\<rparr>) ops1) a) f))"
proof -
  let ?new = "NewMemoryBackend\<lparr>Logins := logins\<rparr>"
  have r: "reachable ?new"
  proof -
    have "?new = run ?new []" by simp
    then show ?thesis unfolding reachable_def by blast
  qed
  have e: "\<forall>f a. \<not> registered_under ?new f a"
    by (simp add: registered_under_def NewMemoryBackend_def NewTree_def tree_get_def)
  have s: "\<not> offline_member (fst (Setup st c cid clean)) a" if "cid \<noteq> []" "sessions st cid = Some a"
    using that by (simp add: Setup_stored offline_member_def in_tree_values tree_get_Clear)
  show ?thesis
    using registered_origin [OF r e, of ops f a] newly_registered [of st x f a] s
    by (auto simp: Terminate_registered Terminate_offlineQueue_clean)
qed

theorem offline_membership_witness:
  "\<not> registered_under ex_online ''test'' 0
   \<and> holds_offline_sub (heap ex_online 0) ''test''
   \<and> registered_under (fst (Terminate ex_online 1)) ''test'' 0
   \<and> \<not> holds_offline_sub (heap ex_qos0_online 0) ''test''
   \<and> \<not> registered_under (fst (Terminate ex_qos0_online 1)) ''test'' 0
   \<and> offlineQueue (fst (Terminate ex_clean_online 1)) = []
   \<and> offline_member ex_missed 0
   \<and> \<not> offline_member (fst (Setup ex_missed 4 ''test'' False)) 0
   \<and> registered_under ex_offline ''test'' 0
   \<and> (\<exists>ops1 c ops2.
        [Op_Setup 1 ''test'' False, Op_SaveSubscription 1 (ex_sub 1), Op_Subscribe 1 ''test'']
          @ [Op_Terminate 1] = ops1 @ Op_Terminate c # ops2
        \<and> bound_client (run (NewMemoryBackend\<lparr>Logins := None\<rparr>) ops1) c 0 False
        \<and> holds_offline_sub (heap (run (NewMemoryBackend\<lparr>Logins := None\<rparr>) ops1) 0) ''test'')"
proof -
  have on: "Context_Get ex_online 1 ''session'' = Some (CSession 0)"
    "Context_Get ex_online 1 ''clean'' \<noteq> Some (CBool True)"
    "\<not> registered_under ex_online ''test'' 0"
    "holds_offline_sub (heap ex_online 0) ''test''"
    by (simp_all add: registered_under_def holds_offline_sub_def ex_online_def eval_defs)
  have q0: "Context_Get ex_qos0_online 1 ''session'' = Some (CSession 0)"
    "Context_Get ex_qos0_online 1 ''clean'' \<noteq> Some (CBool True)"
    "\<not> registered_under ex_qos0_online ''test'' 0"
    "\<not> holds_offline_sub (heap ex_qos0_online 0) ''test''"
    by (simp_all add: registered_under_def holds_offline_sub_def ex_qos0_online_def eval_defs)
  have cl: "Context_Get ex_clean_online 1 ''clean'' = Some (CBool True)"
    "offlineQueue ex_clean_online = []"
    by (simp_all add: ex_clean_online_def eval_defs)
  have mi: "''test'' \<noteq> []" "offline_member ex_missed 0"
    by (simp_all add: offline_member_def ex_missed_eval tree_values_def tree_keys_def tree_get_def)
  have off: "registered_under ex_offline ''test'' 0"
    by (simp add: registered_under_def ex_offline_eval tree_get_def)
  have 1: "registered_under (fst (Terminate ex_online 1)) ''test'' 0"
    using offline_membership [where st = ex_online and c = 1 and a = 0] on by blast
  have 2: "\<not> registered_under (fst (Terminate ex_qos0_online 1)) ''test'' 0"
    using offline_membership [where st = ex_qos0_online and c = 1 and a = 0] q0 by blast
  have 3: "offlineQueue (fst (Terminate ex_clean_online 1)) = []"
    using offline_membership [where st = ex_clean_online and c = 1] cl by metis
  have 4: "\<not> offline_member (fst (Setup ex_missed 4 ''test'' False)) 0"
    using offline_membership [where st = ex_missed and c = 4 and a = 0 and cid = "''test''"
        and clean = False] mi(1) ex_missed_eval(1)
    by blast
  have 5: "\<exists>ops1 c ops2.
        [Op_Setup 1 ''test'' False, Op_SaveSubscription 1 (ex_sub 1), Op_Subscribe 1 ''test'']
          @ [Op_Terminate 1] = ops1 @ Op_Terminate c # ops2
        \<and> bound_client (run (NewMemoryBackend\<lparr>Logins := None\<rparr>) ops1) c 0 False
        \<and> holds_offline_sub (heap (run (NewMemoryBackend\<lparr>Logins := None\<rparr>) ops1) 0) ''test''"
    using offline_membership [where a = 0 and f = "''test''" and logins = None and ops =
        "[Op_Setup 1 ''test'' False, Op_SaveSubscription 1 (ex_sub 1), Op_Subscribe 1 ''test'']
          @ [Op_Terminate 1]"]
      off [unfolded ex_offline_run]
    by blast
  from on(3,4) 1 q0(4) 2 3 mi(2) 4 off 5 show ?thesis by blast
qed

text \<open>
  C1 as stated fails on the state invariant: after the run \<open>ex_takeover\<close> (a second
  client takes over the client id, the evicted client terminates, the second client
  unsubscribes) the session is in the offline queue and holds no subscription at all.
\<close>

theorem offline_invariant_counterexample:
  "reachable (run NewMemoryBackend ex_takeover)
   \<and> offline_member (run NewMemoryBackend ex_takeover) 0
   \<and> registered_under (run NewMemoryBackend ex_takeover) ''test'' 0
   \<and> \<not> holds_any_offline_sub (heap (run NewMemoryBackend ex_takeover) 0)
   \<and> subscriptions (heap (run NewMemoryBackend ex_takeover) 0) = []"
proof -
  have "offlineQueue (run NewMemoryBackend ex_takeover) = [(''test'', [VSession 0])]"
    "subscriptions (heap (run NewMemoryBackend ex_takeover) 0) = []"
    by (simp_all add: ex_takeover_def eval_defs)
  then show ?thesis
    by (simp add: reachable_run reachable_New offline_member_def registered_under_def
        holds_any_offline_sub_def tree_values_def tree_keys_def tree_get_def)
qed

subsection \<open>Retained messages\<close>

text \<open>
  C2. After any run of a new backend (publishes, mixed with any other calls), a
  retained message exists for a topic if and only
  if there was a publish on that topic with \<open>Retain\<close> set and the last such publish
  had a non-empty payload; the retained message is then that message. A publish with
  \<open>Retain\<close> and a non-empty payload stores the message with \<^verbatim>\<open>retained.Set\<close>, one
  with \<open>Retain\<close> and an empty payload empties the slot with \<^verbatim>\<open>retained.Empty\<close>, and
  one without \<open>Retain\<close> leaves the retained store unchanged.
\<close>

theorem retained_invariant:
  "(retained_exists (run (NewMemoryBackend\<lparr>Logins := logins\<rparr>) ops) T \<longleftrightarrow>
      retained_publishes T ops \<noteq> [] \<and> Payload (last (retained_publishes T ops)) \<noteq> [])
   \<and> (retained_exists (run (NewMemoryBackend\<lparr>Logins := logins\<rparr>) ops) T \<longrightarrow>
        tree_get (retained (run (NewMemoryBackend\<lparr>Logins := logins\<rparr>) ops)) T
          = [VMessage (last (retained_publishes T ops))])
   \<and> (Retain msg \<and> Payload msg \<noteq> [] \<longrightarrow>
        retained (fst (Publish st client msg)) = tree_Set (retained st) (Topic msg) (VMessage msg))
   \<and> (Retain msg \<and> Payload msg = [] \<longrightarrow>
        retained (fst (Publish st client msg)) = tree_Empty (retained st) (Topic msg))
   \<and> (\<not> Retain msg \<longrightarrow> retained (fst (Publish st client msg)) = retained st)"
proof -
  have "tree_get (retained (NewMemoryBackend\<lparr>Logins := logins\<rparr>)) T = []"
    by (simp add: NewMemoryBackend_def NewTree_def tree_get_def)
  then show ?thesis
    by (simp add: retained_exists_def retained_run retained_slot_def publish_retain_def)
qed

theorem retained_invariant_witness:
  "retained_exists (run NewMemoryBackend [Op_Publish 3 (ex_msg True [1])]) ''test''
   \<and> tree_get (retained (run NewMemoryBackend
         [Op_Publish 3 (ex_msg True [1]), Op_Publish 3 (ex_msg False [])])) ''test''
       = [VMessage (ex_msg True [1])]
   \<and> \<not> retained_exists (run NewMemoryBackend
         [Op_Publish 3 (ex_msg True [1]), Op_Publish 3 (ex_msg True [])]) ''test''
   \<and> \<not> retained_exists (run NewMemoryBackend [Op_Publish 3 (ex_msg False [1])]) ''test''
   \<and> retained (fst (Publish NewMemoryBackend 3 (ex_msg True [1]))) = [(''test'', [VMessage (ex_msg True [1])])]
   \<and> retained (fst (Publish (fst (Publish NewMemoryBackend 3 (ex_msg True [1]))) 3 (ex_msg True [])))
       = [(''test'', [])]
   \<and> retained (fst (Publish (fst (Publish NewMemoryBackend 3 (ex_msg True [1]))) 3 (ex_msg False [])))
       = [(''test'', [VMessage (ex_msg True [1])])]"
proof -
  let ?s = "fst (Publish NewMemoryBackend 3 (ex_msg True [1]))"
  have f: "Retain (ex_msg r p) = r" "Payload (ex_msg r p) = p" "Topic (ex_msg r p) = ''test''" for r p
    by (simp_all add: ex_msg_def)
  have e: "retained NewMemoryBackend = []" "NewMemoryBackend\<lparr>Logins := None\<rparr> = NewMemoryBackend"
    by (simp_all add: NewMemoryBackend_def NewTree_def)
  from
    retained_invariant [of None "[Op_Publish 3 (ex_msg True [1])]" "''test''" "ex_msg True [1]"
      NewMemoryBackend 3]
    retained_invariant [of None "[Op_Publish 3 (ex_msg True [1]), Op_Publish 3 (ex_msg False [])]"
      "''test''" "ex_msg False []" ?s 3]
    retained_invariant [of None "[Op_Publish 3 (ex_msg True [1]), Op_Publish 3 (ex_msg True [])]"
      "''test''" "ex_msg True []" ?s 3]
    retained_invariant [of None "[Op_Publish 3 (ex_msg False [1])]" "''test''" "ex_msg False [1]"
      NewMemoryBackend 3]
  show ?thesis
    by (simp add: f e tree_Set_def tree_Empty_def tree_get_def)
qed

subsection \<open>Client-id collision\<close>



subsection \<open>Session lifecycle\<close>




subsection \<open>Session resumption\<close>



subsection \<open>Publish delivery\<close>

text \<open>
  C6. One call of \<^verbatim>\<open>Publish\<close> calls \<^verbatim>\<open>client.Publish(msg)\<close> for the clients in
  \<^verbatim>\<open>queue.Match(msg.Topic)\<close>, in that order and for no other client, and appends
  the message to the missed queue of every session in
  \<^verbatim>\<open>offlineQueue.Match(msg.Topic)\<close> (once per occurrence); every other session is
  left as it was. All of it is done when the call returns.
\<close>

theorem Publish_delivers:
  "calls (fst (Publish st client msg)) =
     calls st @ map (\<lambda>c. Call_Publish c msg) (clients_of (tree_Match (queue st) (Topic msg)))
   \<and> (\<forall>c. VClient c \<in> set (tree_Match (queue st) (Topic msg)) \<longrightarrow>
          Call_Publish c msg \<in> set (calls (fst (Publish st client msg))))
   \<and> (\<forall>c. VClient c \<notin> set (tree_Match (queue st) (Topic msg)) \<longrightarrow>
          Call_Publish c msg \<notin> set (drop (length (calls st)) (calls (fst (Publish st client msg)))))
   \<and> (\<forall>a. heap (fst (Publish st client msg)) a =
          (heap st a)\<lparr>missed := missed (heap st a)
             @ replicate (count_list (tree_Match (offlineQueue st) (Topic msg)) (VSession a)) msg\<rparr>)
   \<and> (\<forall>a. VSession a \<in> set (tree_Match (offlineQueue st) (Topic msg)) \<longrightarrow>
          missed (heap (fst (Publish st client msg)) a) \<noteq> [] \<and>
          last (missed (heap (fst (Publish st client msg)) a)) = msg)
   \<and> (\<forall>a. VSession a \<notin> set (tree_Match (offlineQueue st) (Topic msg)) \<longrightarrow>
          heap (fst (Publish st client msg)) a = heap st a)"
  by (auto simp: Publish_eq set_clients_of count_list_0_iff)

theorem Publish_delivers_witness:
  "tree_Match (queue ex_mixed) ''test'' = [VClient 5]
   \<and> tree_Match (offlineQueue ex_mixed) ''test'' = [VSession 0]
   \<and> calls (fst (Publish ex_mixed 3 (ex_msg False [1]))) = [Call_Publish 5 (ex_msg False [1])]
   \<and> missed (heap (fst (Publish ex_mixed 3 (ex_msg False [1]))) 0) = [ex_msg False [1]]
   \<and> heap (fst (Publish ex_mixed 3 (ex_msg False [1]))) 1 = heap ex_mixed 1"
proof -
  have t: "Topic (ex_msg False [1]) = ''test''" by (simp add: ex_msg_def)
  have m: "tree_Match (queue ex_mixed) ''test'' = [VClient 5]"
    "tree_Match (offlineQueue ex_mixed) ''test'' = [VSession 0]"
    by (simp_all add: ex_mixed_eval tree_Match_def tree_keys_def tree_get_def topic_matches_def)
  from Publish_delivers [of ex_mixed 3 "ex_msg False [1]"] m
  show ?thesis by (simp add: t ex_mixed_eval)
qed

subsection \<open>Authentication\<close>



subsection \<open>Anonymous sessions\<close>

text \<open>
  C8. In every reachable state, \<^verbatim>\<open>Setup\<close> with an empty id returns a newly allocated
  session with resumed = false: the session holds nothing and nothing in the state
  referred to it before the call (no registry entry, no context, no offline-queue
  position, no waiting replay). It is not in the sessions map after the call either, and
  no later \<^verbatim>\<open>Setup\<close>, whatever happens in between and whatever its id, returns it.
\<close>

theorem anonymous_session:
  assumes "reachable st"
  shows "snd (Setup st client [] clean) = (next_addr st, False, None)
     \<and> heap (fst (Setup st client [] clean)) (next_addr st) = NewMemorySession
     \<and> (\<forall>cid. sessions st cid \<noteq> Some (next_addr st))
     \<and> (\<forall>c k. contexts st c k \<noteq> Some (CSession (next_addr st)))
     \<and> \<not> offline_member st (next_addr st)
     \<and> (\<forall>c. (c, next_addr st) \<notin> set (spawned st))
     \<and> (\<forall>cid. sessions (fst (Setup st client [] clean)) cid \<noteq> Some (next_addr st))
     \<and> (\<forall>ops c cid' clean'.
          fst (snd (Setup (run (fst (Setup st client [] clean)) ops) c cid' clean')) \<noteq> next_addr st)"
proof -
  let ?st1 = "fst (Setup st client [] clean)"
  have al: "sessions_allocated st"
    using assms by (rule reachable_sessions_allocated)
  then have un: "\<forall>cid. sessions st cid \<noteq> Some (next_addr st)"
    by (auto simp: sessions_allocated_def)
  have fresh: "(\<forall>c k. contexts st c k \<noteq> Some (CSession (next_addr st)))
      \<and> \<not> offline_member st (next_addr st)
      \<and> (\<forall>c. (c, next_addr st) \<notin> set (spawned st))"
  proof -
    have ra: "refs_allocated st"
      using assms by (rule reachable_refs_allocated)
    have "contexts st c k \<noteq> Some (CSession (next_addr st))" for c k
      using ra less_irrefl unfolding refs_allocated_def by blast
    moreover have "\<not> offline_member st (next_addr st)"
      using ra less_irrefl unfolding refs_allocated_def offline_member_def in_tree_values by blast
    moreover have "(c, next_addr st) \<notin> set (spawned st)" for c
      using ra less_irrefl unfolding refs_allocated_def by blast
    ultimately show ?thesis by blast
  qed
  have al1: "sessions_allocated ?st1"
    using sessions_allocated_apply_op [OF al, of "Op_Setup client [] clean"] by simp
  have un1: "next_addr st < next_addr ?st1" "\<forall>cid. sessions ?st1 cid \<noteq> Some (next_addr st)"
    using un by (simp_all add: Setup_empty)
  have "fst (snd (Setup (run ?st1 ops) c cid' clean')) \<noteq> next_addr st" for ops c cid' clean'
    using unregistered_run [OF al1 un1, of ops]
    by (auto simp: Setup_result split: option.splits)
  with un un1 fresh show ?thesis
    by (simp add: Setup_empty)
qed

theorem anonymous_session_witness:
  "snd (Setup ex_offline 7 [] True) = (1, False, None)
   \<and> heap (fst (Setup ex_offline 7 [] True)) 1 = NewMemorySession
   \<and> sessions (fst (Setup ex_offline 7 [] True)) ''test'' = Some 0
   \<and> fst (snd (Setup (run (fst (Setup ex_offline 7 [] True)) [Op_Terminate 7]) 8 ''test'' False)) = 0
   \<and> fst (snd (Setup (run (fst (Setup ex_offline 7 [] True)) [Op_Terminate 7]) 8 [] False)) = 2
   \<and> fst (snd (Setup (run (fst (Setup ex_offline 7 [] True)) [Op_Terminate 7]) 8 ''new'' False)) = 2"
proof -
  have n: "next_addr ex_offline = 1" "sessions ex_offline ''new'' = None"
    by (simp_all add: ex_offline_def ex_online_def eval_defs)
  from anonymous_session [OF reachable_examples(2), of 7 True] n
  show ?thesis
    by (simp add: Setup_result Setup_sessions Setup_next_addr ex_offline_eval)
qed

subsection \<open>Error results\<close>

text \<open>
  C9. \<^verbatim>\<open>Authenticate\<close>, \<^verbatim>\<open>Subscribe\<close>, \<^verbatim>\<open>Unsubscribe\<close> and \<^verbatim>\<open>Publish\<close> return a
  nil error on every input; a denied authentication shows in the boolean only.
\<close>

theorem nil_errors:
  "snd (Authenticate st client user password) = None
   \<and> snd (snd (Subscribe st client topic)) = None
   \<and> snd (Unsubscribe st client topic) = None
   \<and> snd (Publish st client msg) = None"
  by (simp add: Authenticate_def Subscribe_def Unsubscribe_def Publish_def Let_def
      split: option.splits)

subsection \<open>The current client of a session\<close>



end
